theory Spec2Isabelle
  imports Main "HOL-Library.Sublist"
begin

section \<open>Strings and the library functions the generator calls\<close>

text \<open>
  The program is \<^verbatim>\<open>kleaf/impl/ddk/gen_makefiles.py\<close>. It builds text with f-strings, passes
  it through \<^verbatim>\<open>textwrap.dedent\<close>, quotes flags with \<^verbatim>\<open>shlex.quote\<close> and manipulates
  \<^verbatim>\<open>pathlib.Path\<close> values, which on the build host are POSIX paths. The library functions
  are modelled as CPython 3.9 to 3.13 define them. Strings are HOL strings; the characters
  that cannot be written inside a HOL string literal get names. The functions
  \<^verbatim>\<open>_gen_makefile\<close>, \<^verbatim>\<open>_write_ccflag\<close> and \<^verbatim>\<open>_handle_copt_file\<close> appear without the leading
  underscore.
\<close>

definition nl :: string where
  "nl = [CHR 0x0A]"

definition tab :: string where
  "tab = [CHR 0x09]"

definition squote :: string where
  "squote = [CHR 0x27]"

definition dquote :: string where
  "dquote = [CHR 0x22]"

text \<open>\<^verbatim>\<open>s.split(c)\<close> for a one-character separator: never empty, one more field than separators.\<close>

fun split_on :: "char \<Rightarrow> string \<Rightarrow> string list" where
  "split_on c [] = [[]]"
| "split_on c (x # xs) =
     (if x = c then [] # split_on c xs
      else (case split_on c xs of [] \<Rightarrow> [[x]] | l # ls \<Rightarrow> (x # l) # ls))"

text \<open>\<^verbatim>\<open>sep.join(xs)\<close>.\<close>

fun join_with :: "string \<Rightarrow> string list \<Rightarrow> string" where
  "join_with sep [] = []"
| "join_with sep [x] = x"
| "join_with sep (x # y # ys) = x @ sep @ join_with sep (y # ys)"

text \<open>\<^verbatim>\<open>str.lower()\<close> on the ASCII letters (the only ones whose lower case can be one of the
  suffixes the generator compares with).\<close>

definition lower_char :: "char \<Rightarrow> char" where
  "lower_char c =
     (let n = (of_char c :: nat) in if 65 \<le> n \<and> n \<le> 90 then char_of (n + 32) else c)"

definition lower :: "string \<Rightarrow> string" where
  "lower s = map lower_char s"

text \<open>\<^verbatim>\<open>a in b\<close> for two strings is the substring test.\<close>

definition str_in :: "string \<Rightarrow> string \<Rightarrow> bool" where
  "str_in a b = sublist a b"

subsection \<open>textwrap.dedent\<close>

text \<open>
  \<^verbatim>\<open>textwrap.dedent\<close> works line by line: a line of blanks and tabs only becomes empty; the
  margin is the longest common prefix of the leading white space of the lines that have
  another character; a non-empty margin is removed from every line that starts with it.
\<close>

definition is_ws :: "char \<Rightarrow> bool" where
  "is_ws c = (c = CHR '' '' \<or> c = CHR 0x09)"

definition blank_ws_only :: "string \<Rightarrow> string" where
  "blank_ws_only l = (if list_all is_ws l then [] else l)"

definition leading_ws :: "string \<Rightarrow> string" where
  "leading_ws l = takeWhile is_ws l"

text \<open>The margin loop: \<^verbatim>\<open>startswith\<close> one way, then the other, then the first difference.\<close>

fun common_ws :: "string \<Rightarrow> string \<Rightarrow> string" where
  "common_ws (x # xs) (y # ys) = (if x = y then x # common_ws xs ys else [])"
| "common_ws _ _ = []"

definition margin_step :: "string option \<Rightarrow> string \<Rightarrow> string option" where
  "margin_step margin indent =
     (case margin of
        None \<Rightarrow> Some indent
      | Some m \<Rightarrow>
          if prefix m indent then Some m
          else if prefix indent m then Some indent
          else Some (common_ws m indent))"

definition dedent_margin :: "string list \<Rightarrow> string option" where
  "dedent_margin ls =
     foldl margin_step None (map leading_ws (filter (\<lambda>l. \<not> list_all is_ws l) ls))"

definition strip_margin :: "string \<Rightarrow> string \<Rightarrow> string" where
  "strip_margin m l = (if prefix m l then drop (length m) l else l)"

definition dedent :: "string \<Rightarrow> string" where
  "dedent text =
     (let ls = map blank_ws_only (split_on (CHR 0x0A) text) in
      case dedent_margin ls of
        None \<Rightarrow> join_with nl ls
      | Some m \<Rightarrow> if m = [] then join_with nl ls else join_with nl (map (strip_margin m) ls))"

subsection \<open>shlex.quote\<close>

text \<open>Safe characters are \<^verbatim>\<open>[a-zA-Z0-9_@%+=:,./-]\<close>; anything else puts the string in single
  quotes, each single quote inside becoming \<^verbatim>\<open>'"'"'\<close>.\<close>

definition shell_safe :: "char \<Rightarrow> bool" where
  "shell_safe c =
     (let n = (of_char c :: nat) in
      (97 \<le> n \<and> n \<le> 122) \<or> (65 \<le> n \<and> n \<le> 90) \<or> (48 \<le> n \<and> n \<le> 57) \<or>
      c \<in> set ''_@%+=:,./-'')"

definition shlex_quote :: "string \<Rightarrow> string" where
  "shlex_quote s =
     (if s = [] then squote @ squote
      else if list_all shell_safe s then s
      else squote @
           concat (map (\<lambda>c. if [c] = squote then squote @ dquote @ squote @ dquote @ squote
                             else [c]) s) @
           squote)"

subsection \<open>os.path.join\<close>

datatype error = Die string | TypeError | ValueError

definition posix_join2 :: "string \<Rightarrow> string \<Rightarrow> string" where
  "posix_join2 path b =
     (if take 1 b = ''/'' then b
      else if path = [] \<or> (path \<noteq> [] \<and> last path = CHR ''/'') then path @ b
      else path @ ''/'' @ b)"

text \<open>\<^verbatim>\<open>os.path.join(*args)\<close>: the first argument is required; with none Python raises
  TypeError.\<close>

definition os_path_join :: "string list \<Rightarrow> error + string" where
  "os_path_join args =
     (case args of [] \<Rightarrow> Inl TypeError | a # p \<Rightarrow> Inr (foldl posix_join2 a p))"

subsection \<open>pathlib.PurePosixPath\<close>

text \<open>
  A path is its root (\<^verbatim>\<open>""\<close>, \<^verbatim>\<open>"/"\<close> or \<^verbatim>\<open>"//"\<close>) and its names; the parser drops empty
  names and \<^verbatim>\<open>.\<close>, and keeps \<^verbatim>\<open>..\<close>. Two paths are equal when both components are.
\<close>

datatype path = Path (p_root: string) (p_tail: "string list")

definition splitroot :: "string \<Rightarrow> string \<times> string" where
  "splitroot p =
     (if take 1 p \<noteq> ''/'' then ([], p)
      else if take 1 (drop 1 p) \<noteq> ''/'' \<or> take 1 (drop 2 p) = ''/'' then (''/'', drop 1 p)
      else (''//'', drop 2 p))"

definition PurePath :: "string \<Rightarrow> path" where
  "PurePath s =
     (case splitroot s of
        (r, rel) \<Rightarrow> Path r (filter (\<lambda>x. x \<noteq> [] \<and> x \<noteq> ''.'') (split_on (CHR ''/'') rel)))"

text \<open>\<^verbatim>\<open>pathlib.Path(*segments)\<close>: the segments are joined with \<^verbatim>\<open>os.path.join\<close> and parsed;
  with no segment the path is the empty one.\<close>

definition Path_of_segments :: "string list \<Rightarrow> path" where
  "Path_of_segments segs =
     (case segs of [] \<Rightarrow> PurePath [] | a # p \<Rightarrow> PurePath (foldl posix_join2 a p))"

definition str :: "path \<Rightarrow> string" where
  "str p = (if p_root p = [] \<and> p_tail p = [] then ''.'' else p_root p @ join_with ''/'' (p_tail p))"

definition parts :: "path \<Rightarrow> string list" where
  "parts p = (if p_root p \<noteq> [] then [p_root p] else []) @ p_tail p"

text \<open>\<^verbatim>\<open>a / b\<close>: an absolute right operand replaces the left one.\<close>

definition joinpath :: "path \<Rightarrow> path \<Rightarrow> path" where
  "joinpath a b = (if p_root b \<noteq> [] then b else Path (p_root a) (p_tail a @ p_tail b))"

definition name :: "path \<Rightarrow> string" where
  "name p = (if p_tail p = [] then [] else last (p_tail p))"

definition parent :: "path \<Rightarrow> path" where
  "parent p = (if p_tail p = [] then p else Path (p_root p) (butlast (p_tail p)))"

text \<open>\<^verbatim>\<open>name.rfind('.')\<close>, as an option.\<close>

fun rfind_dot :: "string \<Rightarrow> nat option" where
  "rfind_dot [] = None"
| "rfind_dot (c # cs) =
     (case rfind_dot cs of
        Some i \<Rightarrow> Some (Suc i)
      | None \<Rightarrow> if c = CHR ''.'' then Some 0 else None)"

definition suffix_of_name :: "string \<Rightarrow> string" where
  "suffix_of_name n =
     (case rfind_dot n of
        None \<Rightarrow> []
      | Some i \<Rightarrow> if 0 < i \<and> i < length n - 1 then drop i n else [])"

definition path_suffix :: "path \<Rightarrow> string" where
  "path_suffix p = suffix_of_name (name p)"

text \<open>\<^verbatim>\<open>with_suffix\<close> raises ValueError on a malformed suffix and on a path with no name.\<close>

definition with_suffix :: "path \<Rightarrow> string \<Rightarrow> error + path" where
  "with_suffix p sfx =
     (if CHR ''/'' \<in> set sfx then Inl ValueError
      else if (sfx \<noteq> [] \<and> take 1 sfx \<noteq> ''.'') \<or> sfx = ''.'' then Inl ValueError
      else if name p = [] then Inl ValueError
      else Inr (Path (p_root p)
                  (butlast (p_tail p) @
                   [take (length (name p) - length (path_suffix p)) (name p) @ sfx])))"

definition is_relative_to :: "path \<Rightarrow> path \<Rightarrow> bool" where
  "is_relative_to p other = (p_root p = p_root other \<and> prefix (p_tail other) (p_tail p))"

definition relative_to :: "path \<Rightarrow> path \<Rightarrow> error + path" where
  "relative_to p other =
     (if is_relative_to p other then Inr (Path [] (drop (length (p_tail other)) (p_tail p)))
      else Inl ValueError)"

section \<open>The generator\<close>

text \<open>
  The file system the generator writes to: the content of each file it has opened with
  \<^verbatim>\<open>open(path, "w")\<close>, by path. Directories (\<^verbatim>\<open>os.makedirs\<close>) and failures of the operating
  system are left out. \<^verbatim>\<open>die\<close> logs its message and exits with status 1: it is the error
  \<open>Die\<close> with the formatted message; an uncaught Python exception is the error of its name.
\<close>

type_synonym fs = "path \<Rightarrow> string option"

definition SOURCE_SUFFIXES :: "string list" where
  "SOURCE_SUFFIXES = [''.c'', ''.rs'', ''.s'']"

subsection \<open>The Makefile\<close>

definition symvers_entry :: "string \<Rightarrow> path \<Rightarrow> string" where
  "symvers_entry rel_root module_symvers =
     dedent (''            # Include symbol: '' @ str module_symvers @ nl @
             ''            EXTRA_SYMBOLS += $(OUT_DIR)/$(M)/'' @ rel_root @ ''/'' @
               str module_symvers @ nl @
             ''            '')"

definition makefile_stanza :: string where
  "makefile_stanza =
     dedent (''        modules modules_install clean:'' @ nl @
             ''        '' @ tab @
             ''$(MAKE) -C $(KERNEL_SRC) M=$(M) $(KBUILD_OPTIONS) KBUILD_EXTRA_SYMBOLS='' @
               dquote @ ''$(EXTRA_SYMBOLS)'' @ dquote @ '' $(@)'' @ nl @
             ''        '')"

text \<open>\<^verbatim>\<open>_gen_makefile\<close>: the relative root is computed first, so a failure there writes nothing.\<close>

definition gen_makefile :: "path \<Rightarrow> path list \<Rightarrow> path \<Rightarrow> fs \<Rightarrow> error + fs" where
  "gen_makefile package module_symvers_list output_makefile files =
     (case os_path_join (replicate (length (parts package)) ''..'') of
        Inl e \<Rightarrow> Inl e
      | Inr rel_root \<Rightarrow>
          Inr (files(output_makefile \<mapsto>
                 concat (map (symvers_entry rel_root) module_symvers_list) @ makefile_stanza)))"

subsection \<open>The Kbuild file\<close>

text \<open>\<^verbatim>\<open>_write_ccflag\<close>, as the text it appends.\<close>

definition write_ccflag :: "string \<Rightarrow> string" where
  "write_ccflag ccflag =
     dedent (''        ccflags-y += '' @ shlex_quote ccflag @ nl @ ''        '')"

text \<open>The options file after \<^verbatim>\<open>json.load\<close>: an array of records with the two fields the
  generator reads.\<close>

record copt =
  expanded :: string
  is_path :: bool

definition copt_value :: "path \<Rightarrow> copt \<Rightarrow> string" where
  "copt_value rel_root d =
     (if is_path d then str (joinpath rel_root (PurePath (expanded d))) else expanded d)"

text \<open>\<^verbatim>\<open>_handle_copt_file\<close>: \<open>out_file\<close> is the text written to the open file so far.\<close>

definition handle_copt_file :: "string \<Rightarrow> copt list option \<Rightarrow> path \<Rightarrow> string" where
  "handle_copt_file out_file copt_file rel_root =
     (case copt_file of
        None \<Rightarrow> out_file
      | Some ds \<Rightarrow>
          out_file @ nl @ dedent (''        # copts'' @ nl @ ''        '') @
          concat (map (\<lambda>d. write_ccflag (copt_value rel_root d)) ds))"

text \<open>The first loop of \<^verbatim>\<open>gen_ddk_makefile\<close>: the sources under the package, made relative
  to it.\<close>

fun rel_srcs_of :: "path \<Rightarrow> path list \<Rightarrow> error + path list" where
  "rel_srcs_of package [] = Inr []"
| "rel_srcs_of package (src # srcs) =
     (if is_relative_to src package then
        (case relative_to src package of
           Inl e \<Rightarrow> Inl e
         | Inr r \<Rightarrow> (case rel_srcs_of package srcs of Inl e \<Rightarrow> Inl e | Inr rs \<Rightarrow> Inr (r # rs)))
      else rel_srcs_of package srcs)"

text \<open>One round of the loop over \<open>rel_srcs\<close>: the text it writes, or the error that ends the
  run. The header test is Python's \<^verbatim>\<open>src.suffix.lower() in (".h")\<close>, whose right operand is a
  string.\<close>

definition src_entry :: "path \<Rightarrow> path \<Rightarrow> path \<Rightarrow> error + string" where
  "src_entry package kernel_module_out src =
     (if str_in (lower (path_suffix src)) ''.h'' then Inr []
      else if lower (path_suffix src) \<notin> set SOURCE_SUFFIXES then
        Inl (Die (''Invalid source '' @ str src))
      else
        (case with_suffix src ''.ko'' of
           Inl e \<Rightarrow> Inl e
         | Inr ko \<Rightarrow>
             if ko = kernel_module_out then
               Inr (dedent (''                    # The module '' @ str kernel_module_out @
                            '' has a source file '' @ str src @ nl @
                            ''                ''))
             else if \<not> is_relative_to src (parent kernel_module_out) then
               Inl (Die (str src @ '' is not a valid source because it is not under '' @
                         str (parent kernel_module_out)))
             else
               (case with_suffix src ''.o'' of
                  Inl e \<Rightarrow> Inl e
                | Inr src_o \<Rightarrow>
                    (case relative_to src_o (parent kernel_module_out) of
                       Inl e \<Rightarrow> Inl e
                     | Inr out \<Rightarrow>
                         (case with_suffix kernel_module_out [] of
                            Inl e \<Rightarrow> Inl e
                          | Inr stem \<Rightarrow>
                              Inr (dedent (''                # Source: '' @
                                           str (joinpath package src) @ nl @
                                           ''                '' @ name stem @ ''-y += '' @
                                           str out @ nl @
                                           ''            '')))))))"

text \<open>The loop: an error leaves in the file what earlier rounds wrote.\<close>

fun write_srcs :: "path \<Rightarrow> path \<Rightarrow> path list \<Rightarrow> string \<Rightarrow> error option \<times> string" where
  "write_srcs package kernel_module_out [] out_file = (None, out_file)"
| "write_srcs package kernel_module_out (src # srcs) out_file =
     (case src_entry package kernel_module_out src of
        Inl e \<Rightarrow> (Some e, out_file)
      | Inr txt \<Rightarrow> write_srcs package kernel_module_out srcs (out_file @ txt))"

definition kbuild_rel_root :: "path \<Rightarrow> path \<Rightarrow> path" where
  "kbuild_rel_root package kernel_module_out =
     Path_of_segments
       (replicate (length (parts (joinpath package (parent kernel_module_out)))) ''..'')"

definition include_entry :: "path \<Rightarrow> path \<Rightarrow> string" where
  "include_entry rel_root include_dir =
     dedent (''                # Include '' @ str include_dir @ nl @ ''                '') @
     write_ccflag (''-I$(srctree)/$(src)/'' @ str rel_root @ ''/'' @ str include_dir)"

definition local_defines_section :: "string list \<Rightarrow> string" where
  "local_defines_section local_defines =
     (if local_defines \<noteq> [] then
        nl @ dedent (''                # local defines'' @ nl @ ''                '')
      else []) @
     concat (map (\<lambda>local_define. write_ccflag (''-D'' @ local_define)) local_defines)"

text \<open>Everything written between opening and closing the module's Kbuild file.\<close>

definition write_kbuild ::
  "path \<Rightarrow> path \<Rightarrow> path list \<Rightarrow> path list \<Rightarrow> string list \<Rightarrow> copt list option \<Rightarrow>
   error option \<times> string" where
  "write_kbuild package kernel_module_out rel_srcs include_dirs local_defines copt_file =
     (case with_suffix kernel_module_out ''.o'' of
        Inl e \<Rightarrow> (Some e, [])
      | Inr mod_o \<Rightarrow>
          (case write_srcs package kernel_module_out rel_srcs
                  (dedent (''            # Build '' @ str (joinpath package kernel_module_out) @ nl @
                           ''            obj-m += '' @ name mod_o @ nl @
                           ''            '') @ nl) of
             (Some e, out_file) \<Rightarrow> (Some e, out_file)
           | (None, out_file) \<Rightarrow>
               (let rel_root = kbuild_rel_root package kernel_module_out in
                (None,
                 handle_copt_file
                   (out_file @ nl @
                    concat (map (include_entry rel_root) include_dirs) @
                    local_defines_section local_defines)
                   copt_file rel_root))))"

definition top_kbuild_text :: "path \<Rightarrow> path \<Rightarrow> string" where
  "top_kbuild_text package kernel_module_out =
     dedent (''                # Build '' @ str (joinpath package kernel_module_out) @ nl @
             ''                obj-y += '' @ str (parent kernel_module_out) @ ''/'' @ nl @
             ''                '')"

text \<open>\<^verbatim>\<open>gen_ddk_makefile\<close>: the error the run ends with (\<open>None\<close> for exit status 0) and the
  files as the run leaves them.\<close>

definition gen_ddk_makefile ::
  "path \<Rightarrow> path \<Rightarrow> path list \<Rightarrow> path list \<Rightarrow> path list \<Rightarrow> path \<Rightarrow> string list \<Rightarrow>
   copt list option \<Rightarrow> fs \<Rightarrow> error option \<times> fs" where
  "gen_ddk_makefile output_makefiles kernel_module_out kernel_module_srcs include_dirs
       module_symvers_list package local_defines copt_file files =
     (case gen_makefile package module_symvers_list
             (joinpath output_makefiles (PurePath ''Makefile'')) files of
        Inl e \<Rightarrow> (Some e, files)
      | Inr files1 \<Rightarrow>
          (case rel_srcs_of package kernel_module_srcs of
             Inl e \<Rightarrow> (Some e, files1)
           | Inr rel_srcs \<Rightarrow>
               if path_suffix kernel_module_out \<noteq> ''.ko'' then
                 (Some (Die (''Invalid output: '' @ str kernel_module_out @
                             ''; must end with .ko'')), files1)
               else
                 (let kbuild = joinpath (joinpath output_makefiles (parent kernel_module_out))
                                 (PurePath ''Kbuild'')
                  in case write_kbuild package kernel_module_out rel_srcs include_dirs
                            local_defines copt_file of
                       (Some e, txt) \<Rightarrow> (Some e, files1(kbuild \<mapsto> txt))
                     | (None, txt) \<Rightarrow>
                         (let files2 = files1(kbuild \<mapsto> txt);
                              top_kbuild = joinpath output_makefiles (PurePath ''Kbuild'')
                          in if top_kbuild \<noteq> kbuild then
                               (None, files2(top_kbuild \<mapsto>
                                        top_kbuild_text package kernel_module_out))
                             else (None, files2)))))"

section \<open>Properties of the library functions\<close>

subsection \<open>Splitting and joining\<close>

lemma split_on_no_sep: "c \<notin> set l \<Longrightarrow> split_on c l = [l]"
  by (induction l) auto

lemma split_on_append_sep:
  "c \<notin> set l \<Longrightarrow> split_on c (l @ c # rest) = l # split_on c rest"
  by (induction l) auto

lemma join_with_Cons_snoc:
  "join_with sep (l # ls @ [t]) = l @ sep @ join_with sep (ls @ [t])"
  by (cases ls) simp_all

lemma join_with_lines:
  "join_with [c] (ls @ [[]]) = concat (map (\<lambda>l. l @ [c]) ls)"
  by (induction ls) (simp_all add: join_with_Cons_snoc)

lemma foldl_margin_step_pad:
  "\<forall>i\<in>set is. prefix pad i \<Longrightarrow> foldl margin_step (Some pad) is = Some pad"
  by (induction "is") (auto simp: margin_step_def)

lemma leading_ws_pad:
  "list_all is_ws pad \<Longrightarrow> leading_ws (pad @ l) = pad @ leading_ws l"
  by (simp add: leading_ws_def list_all_iff takeWhile_append2)



lemma nl_not_ws: "\<not> is_ws (CHR 0x0A)"
  by (simp add: is_ws_def)

lemma ws_no_nl: "list_all is_ws pad \<Longrightarrow> CHR 0x0A \<notin> set pad"
  using nl_not_ws by (auto simp: list_all_iff)

lemma split_on_padded:
  "\<forall>l\<in>set ls. c \<notin> set l \<Longrightarrow> c \<notin> set pad \<Longrightarrow> c \<notin> set t \<Longrightarrow>
   split_on c (concat (map (\<lambda>l. pad @ l @ [c]) ls) @ t) = map (\<lambda>l. pad @ l) ls @ [t]"
proof (induction ls)
  case Nil
  then show ?case by (simp add: split_on_no_sep)
next
  case (Cons l ls)
  have "split_on c ((pad @ l) @ c # (concat (map (\<lambda>l. pad @ l @ [c]) ls) @ t)) =
        (pad @ l) # split_on c (concat (map (\<lambda>l. pad @ l @ [c]) ls) @ t)"
    by (rule split_on_append_sep) (use Cons.prems in simp)
  then show ?case using Cons by simp
qed

lemma dedent_block:
  assumes ls: "ls \<noteq> []"
    and nonl: "\<forall>l\<in>set ls. CHR 0x0A \<notin> set l"
    and nonblank: "\<forall>l\<in>set ls. \<not> list_all is_ws l"
    and first: "\<not> is_ws (hd (hd ls))"
    and pad: "list_all is_ws pad" "pad \<noteq> []"
    and t: "list_all is_ws t"
  shows "dedent (concat (map (\<lambda>l. pad @ l @ nl) ls) @ t) = concat (map (\<lambda>l. l @ nl) ls)"
proof -
  let ?pls = "map (\<lambda>l. pad @ l) ls"
  have nl_pad: "CHR 0x0A \<notin> set pad"
    using pad(1) by (rule ws_no_nl)
  have nl_t: "CHR 0x0A \<notin> set t"
    using t by (rule ws_no_nl)
  have split:
    "split_on (CHR 0x0A) (concat (map (\<lambda>l. pad @ l @ nl) ls) @ t) = ?pls @ [t]"
    unfolding nl_def by (rule split_on_padded) (use nonl nl_pad nl_t in simp_all)
  have blank1: "map blank_ws_only ?pls = ?pls"
    using nonblank by (simp add: blank_ws_only_def)
  have blank: "map blank_ws_only (?pls @ [t]) = ?pls @ [[]]"
    using blank1 t by (simp add: blank_ws_only_def)
  have filt1: "filter (\<lambda>l. \<not> list_all is_ws l) ?pls = ?pls"
    using nonblank by (simp add: filter_id_conv)
  have filt: "filter (\<lambda>l. \<not> list_all is_ws l) (?pls @ [[]]) = ?pls"
    using filt1 by simp
  obtain l0 ls' where l0: "ls = l0 # ls'"
    using ls by (cases ls) auto
  have l0ne: "l0 \<noteq> []"
    using nonblank l0 by auto
  have "leading_ws l0 = []"
    using first l0 l0ne by (cases l0) (simp_all add: leading_ws_def)
  then have lead0: "leading_ws (pad @ l0) = pad"
    using pad(1) by (simp add: leading_ws_pad)
  have "dedent_margin (?pls @ [[]]) = foldl margin_step None (map leading_ws ?pls)"
    unfolding dedent_margin_def filt ..
  also have "\<dots> = foldl margin_step (Some pad) (map leading_ws (map (\<lambda>l. pad @ l) ls'))"
    using lead0 by (simp add: l0 margin_step_def)
  also have "\<dots> = Some pad"
    by (rule foldl_margin_step_pad) (simp add: leading_ws_pad pad(1))
  finally have margin: "dedent_margin (?pls @ [[]]) = Some pad" .
  have strip1: "map (strip_margin pad) ?pls = ls"
    by (simp add: strip_margin_def comp_def)
  have strip: "map (strip_margin pad) (?pls @ [[]]) = ls @ [[]]"
    using strip1 pad(2) by (simp add: strip_margin_def)
  have "dedent (concat (map (\<lambda>l. pad @ l @ nl) ls) @ t) =
        join_with nl (map (strip_margin pad) (?pls @ [[]]))"
    unfolding dedent_def split blank Let_def margin
    using pad(2) by simp
  also have "\<dots> = join_with nl (ls @ [[]])"
    by (simp only: strip)
  also have "\<dots> = concat (map (\<lambda>l. l @ nl) ls)"
    unfolding nl_def by (rule join_with_lines)
  finally show ?thesis .
qed

subsection \<open>Relative roots\<close>

lemma join_dotdot: "join_with ''/'' (replicate (Suc n) ''..'') = ''..'' @ concat (replicate n ''/..'')"
proof (induction n)
  case 0
  show ?case by simp
next
  case (Suc n)
  have "join_with ''/'' (replicate (Suc (Suc n)) ''..'') =
        ''..'' @ ''/'' @ join_with ''/'' (replicate (Suc n) ''..'')"
    by simp
  then show ?case using Suc by simp
qed

lemma foldl_posix_join2_dotdot:
  "acc \<noteq> [] \<Longrightarrow> last acc \<noteq> CHR ''/'' \<Longrightarrow>
   foldl posix_join2 acc (replicate n ''..'') = acc @ concat (replicate n ''/..'')"
proof (induction n arbitrary: acc)
  case 0
  show ?case by simp
next
  case (Suc n)
  have step: "posix_join2 acc ''..'' = acc @ ''/..''"
    using Suc.prems by (simp add: posix_join2_def)
  have "foldl posix_join2 (acc @ ''/..'') (replicate n ''..'') =
        (acc @ ''/..'') @ concat (replicate n ''/..'')"
    by (rule Suc.IH) simp_all
  then show ?case using step by simp
qed

lemma os_path_join_dotdot:
  "os_path_join (replicate (Suc n) ''..'') = Inr (join_with ''/'' (replicate (Suc n) ''..''))"
proof -
  have "foldl posix_join2 ''..'' (replicate n ''..'') = ''..'' @ concat (replicate n ''/..'')"
    by (rule foldl_posix_join2_dotdot) simp_all
  then have "foldl posix_join2 ''..'' (replicate n ''..'') =
             join_with ''/'' (replicate (Suc n) ''..'')"
    by (simp only: join_dotdot)
  then show ?thesis by (simp add: os_path_join_def del: join_with.simps)
qed

lemma os_path_join_Nil: "os_path_join [] = Inl TypeError"
  by (simp add: os_path_join_def)

lemma split_on_dotdot:
  "split_on (CHR ''/'') (''..'' @ concat (replicate n ''/..'')) = replicate (Suc n) ''..''"
proof (induction n)
  case 0
  show ?case by simp
next
  case (Suc n)
  have "split_on (CHR ''/'') (''..'' @ CHR ''/'' # (''..'' @ concat (replicate n ''/..''))) =
        ''..'' # split_on (CHR ''/'') (''..'' @ concat (replicate n ''/..''))"
    by (rule split_on_append_sep) simp
  then show ?case using Suc by simp
qed

lemma Path_of_segments_dotdot:
  "Path_of_segments (replicate d ''..'') = Path [] (replicate d ''..'')"
proof (cases d)
  case 0
  then show ?thesis by (simp add: Path_of_segments_def PurePath_def splitroot_def)
next
  case (Suc n)
  have "foldl posix_join2 ''..'' (replicate n ''..'') = ''..'' @ concat (replicate n ''/..'')"
    by (rule foldl_posix_join2_dotdot) simp_all
  moreover have "PurePath (''..'' @ concat (replicate n ''/..'')) = Path [] (replicate (Suc n) ''..'')"
    unfolding PurePath_def using split_on_dotdot [of n]
    by (simp add: splitroot_def)
  ultimately show ?thesis using Suc by (simp add: Path_of_segments_def)
qed

lemma gen_makefile_no_parts:
  "parts package = [] \<Longrightarrow> gen_makefile package module_symvers_list output_makefile files = Inl TypeError"
  by (simp add: gen_makefile_def os_path_join_def)

lemma parts_PurePath_empty: "parts (PurePath []) = []"
  by (simp add: parts_def PurePath_def splitroot_def)

section \<open>The relative root\<close>

text \<open>
  C1. The claim: for every package depth \<open>d \<ge> 0\<close> the relative root has exactly \<open>d\<close> segments
  \<^verbatim>\<open>..\<close>, and depth zero gives the empty relative path instead of an error, in the Makefile
  emitter as in the Kbuild emitter. The Kbuild emitter does so
  (\<open>Path_of_segments_dotdot\<close>), and the Makefile emitter does for \<open>d > 0\<close>
  (\<open>os_path_join_dotdot\<close>). For the package \<^verbatim>\<open>""\<close>, which has no parts, the Makefile emitter
  calls \<^verbatim>\<open>os.path.join\<close> with no argument: the run ends with TypeError before any file is
  written, whereas the Kbuild emitter's relative root for the same package is \<^verbatim>\<open>.\<close>.
\<close>

theorem C1_makefile_rel_root_fails_at_depth_zero:
  "parts (PurePath []) = [] \<and>
   gen_makefile (PurePath []) module_symvers_list output_makefile files = Inl TypeError \<and>
   gen_ddk_makefile output_makefiles kernel_module_out kernel_module_srcs include_dirs
     module_symvers_list (PurePath []) local_defines copt_file files = (Some TypeError, files) \<and>
   str (kbuild_rel_root (PurePath []) (PurePath ''mod.ko'')) = ''.''"
  by (simp add: gen_ddk_makefile_def gen_makefile_no_parts parts_PurePath_empty
      kbuild_rel_root_def Path_of_segments_def PurePath_def splitroot_def parts_def
      joinpath_def parent_def str_def)

section \<open>The run as a whole\<close>

lemma rel_srcs_of_eq:
  "rel_srcs_of package srcs =
   Inr (map (\<lambda>s. Path [] (drop (length (p_tail package)) (p_tail s)))
          (filter (\<lambda>s. is_relative_to s package) srcs))"
  by (induction srcs) (simp_all add: relative_to_def)

lemma gen_makefile_parts:
  assumes "parts package \<noteq> []"
  shows "gen_makefile package module_symvers_list output_makefile files =
    Inr (files(output_makefile \<mapsto>
      concat (map (symvers_entry (join_with ''/'' (replicate (length (parts package)) ''..'')))
                module_symvers_list) @ makefile_stanza))"
proof -
  obtain n where n: "length (parts package) = Suc n"
    using assms by (cases "parts package") auto
  show ?thesis
    unfolding gen_makefile_def n os_path_join_dotdot by simp
qed

lemma PurePath_Makefile: "PurePath ''Makefile'' = Path [] [''Makefile'']"
  by (simp add: PurePath_def splitroot_def)

lemma PurePath_Kbuild: "PurePath ''Kbuild'' = Path [] [''Kbuild'']"
  by (simp add: PurePath_def splitroot_def)

lemma makefile_stanza_eq:
  "makefile_stanza =
     ''modules modules_install clean:'' @ nl @ tab @
     ''$(MAKE) -C $(KERNEL_SRC) M=$(M) $(KBUILD_OPTIONS) KBUILD_EXTRA_SYMBOLS='' @
     dquote @ ''$(EXTRA_SYMBOLS)'' @ dquote @ '' $(@)'' @ nl"
  by code_simp

subsection \<open>An output that is not a module\<close>

text \<open>
  C9. When the suffix of the module output path is not \<^verbatim>\<open>.ko\<close>, the run ends in \<^verbatim>\<open>die\<close>
  (exit status 1) with the message naming the path. The Makefile, written before the test,
  stays: the files after the run are the files before it with the Makefile added at the
  output root, and neither the module's Kbuild path nor the top-level Kbuild path is the
  Makefile's path, so no Kbuild file has been written. The Makefile is written only when
  the package has at least one part (see C1), which is the hypothesis.
\<close>

theorem C9_invalid_output_keeps_makefile:
  assumes "parts package \<noteq> []" and "path_suffix kernel_module_out \<noteq> ''.ko''"
  shows "gen_ddk_makefile output_makefiles kernel_module_out kernel_module_srcs include_dirs
           module_symvers_list package local_defines copt_file files =
         (Some (Die (''Invalid output: '' @ str kernel_module_out @ ''; must end with .ko'')),
          files(joinpath output_makefiles (PurePath ''Makefile'') \<mapsto>
            concat (map (symvers_entry
                           (join_with ''/'' (replicate (length (parts package)) ''..'')))
                      module_symvers_list) @ makefile_stanza)) \<and>
         joinpath (joinpath output_makefiles (parent kernel_module_out)) (PurePath ''Kbuild'') \<noteq>
           joinpath output_makefiles (PurePath ''Makefile'') \<and>
         joinpath output_makefiles (PurePath ''Kbuild'') \<noteq>
           joinpath output_makefiles (PurePath ''Makefile'')"
proof -
  have "joinpath (joinpath output_makefiles (parent kernel_module_out)) (PurePath ''Kbuild'') \<noteq>
           joinpath output_makefiles (PurePath ''Makefile'')"
    by (simp add: PurePath_Makefile PurePath_Kbuild joinpath_def)
  moreover have "joinpath output_makefiles (PurePath ''Kbuild'') \<noteq>
           joinpath output_makefiles (PurePath ''Makefile'')"
    by (simp add: PurePath_Makefile PurePath_Kbuild joinpath_def)
  moreover have "gen_ddk_makefile output_makefiles kernel_module_out kernel_module_srcs include_dirs
           module_symvers_list package local_defines copt_file files =
         (Some (Die (''Invalid output: '' @ str kernel_module_out @ ''; must end with .ko'')),
          files(joinpath output_makefiles (PurePath ''Makefile'') \<mapsto>
            concat (map (symvers_entry
                           (join_with ''/'' (replicate (length (parts package)) ''..'')))
                      module_symvers_list) @ makefile_stanza))"
    unfolding gen_ddk_makefile_def gen_makefile_parts [OF assms(1)] rel_srcs_of_eq
    using assms(2) by simp
  ultimately show ?thesis by simp
qed

theorem C9_invalid_output_keeps_makefile_witness:
  "parts (PurePath ''a/b'') \<noteq> [] \<and> path_suffix (PurePath ''a/b/mod.bad'') \<noteq> ''.ko'' \<and>
   gen_ddk_makefile (PurePath ''out'') (PurePath ''a/b/mod.bad'') [] [] [] (PurePath ''a/b'') []
     None Map.empty =
   (Some (Die ''Invalid output: a/b/mod.bad; must end with .ko''),
    [PurePath ''out/Makefile'' \<mapsto> makefile_stanza])"
proof -
  have h1: "parts (PurePath ''a/b'') \<noteq> []"
    by code_simp
  have h2: "path_suffix (PurePath ''a/b/mod.bad'') \<noteq> ''.ko''"
    by code_simp
  have s: "str (PurePath ''a/b/mod.bad'') = ''a/b/mod.bad''"
    by code_simp
  have p: "joinpath (PurePath ''out'') (PurePath ''Makefile'') = PurePath ''out/Makefile''"
    by code_simp
  show ?thesis
    using C9_invalid_output_keeps_makefile [OF h1 h2, of "PurePath ''out''" "[]" "[]" "[]" "[]" None Map.empty]
      h1 h2 by (simp add: s p)
qed

subsection \<open>Sources the loop passes over\<close>

lemma suffix_Nil_tail: "path_suffix (Path r []) = []"
  by (simp add: path_suffix_def name_def suffix_of_name_def)

lemma suffix_drop_tail:
  "n < length (p_tail s) \<Longrightarrow> path_suffix (Path r (drop n (p_tail s))) = path_suffix s"
  by (cases "p_tail s = []") (simp_all add: path_suffix_def name_def)

lemma suffix_relative:
  "path_suffix (Path [] (drop n (p_tail s))) = path_suffix s \<or>
   path_suffix (Path [] (drop n (p_tail s))) = []"
proof (cases "n < length (p_tail s)")
  case True
  then show ?thesis by (simp add: suffix_drop_tail)
next
  case False
  then show ?thesis by (simp add: suffix_Nil_tail)
qed

lemma str_in_header_self: "str_in ''.h'' ''.h''"
  by (simp add: str_in_def)

lemma str_in_header_empty: "str_in [] ''.h''"
  by (simp add: str_in_def)

lemma src_entry_skip:
  "str_in (lower (path_suffix r)) ''.h'' \<Longrightarrow> src_entry package kernel_module_out r = Inr []"
  by (simp add: src_entry_def)

lemma write_srcs_skip:
  "src_entry package kernel_module_out r = Inr [] \<Longrightarrow>
   write_srcs package kernel_module_out (rs1 @ r # rs2) out_file =
   write_srcs package kernel_module_out (rs1 @ rs2) out_file"
  by (induction rs1 arbitrary: out_file) (simp_all split: sum.splits)

lemma gen_ddk_makefile_skip:
  assumes "is_relative_to src package \<Longrightarrow>
           src_entry package kernel_module_out
             (Path [] (drop (length (p_tail package)) (p_tail src))) = Inr []"
  shows "gen_ddk_makefile output_makefiles kernel_module_out (srcs1 @ src # srcs2) include_dirs
           module_symvers_list package local_defines copt_file files =
         gen_ddk_makefile output_makefiles kernel_module_out (srcs1 @ srcs2) include_dirs
           module_symvers_list package local_defines copt_file files"
proof -
  let ?rel = "\<lambda>srcs. map (\<lambda>s. Path [] (drop (length (p_tail package)) (p_tail s)))
                       (filter (\<lambda>s. is_relative_to s package) srcs)"
  have ws: "write_srcs package kernel_module_out (?rel (srcs1 @ src # srcs2)) out_file =
            write_srcs package kernel_module_out (?rel (srcs1 @ srcs2)) out_file" for out_file
  proof (cases "is_relative_to src package")
    case True
    then show ?thesis using write_srcs_skip [OF assms [OF True]] by simp
  next
    case False
    then show ?thesis by simp
  qed
  have wk: "write_kbuild package kernel_module_out (?rel (srcs1 @ src # srcs2)) include_dirs
              local_defines copt_file =
            write_kbuild package kernel_module_out (?rel (srcs1 @ srcs2)) include_dirs
              local_defines copt_file"
    unfolding write_kbuild_def ws ..
  show ?thesis
    unfolding gen_ddk_makefile_def rel_srcs_of_eq sum.case wk ..
qed

text \<open>
  C5. A declared source whose lower-cased suffix is \<^verbatim>\<open>.h\<close> leaves no trace: the run with the
  source in the list ends as the run without it does, with the same exit and the same files,
  whatever the other arguments are; and when the source is under the package, its round of
  the loop writes nothing and raises nothing.
\<close>

theorem C5_header_source_is_skipped:
  assumes "lower (path_suffix src) = ''.h''"
  shows "gen_ddk_makefile output_makefiles kernel_module_out (srcs1 @ src # srcs2) include_dirs
           module_symvers_list package local_defines copt_file files =
         gen_ddk_makefile output_makefiles kernel_module_out (srcs1 @ srcs2) include_dirs
           module_symvers_list package local_defines copt_file files \<and>
         (case relative_to src package of
            Inl e \<Rightarrow> \<not> is_relative_to src package
          | Inr r \<Rightarrow> src_entry package kernel_module_out r = Inr [])"
proof -
  have "str_in (lower (path_suffix (Path [] (drop (length (p_tail package)) (p_tail src))))) ''.h''"
    using suffix_relative [of "length (p_tail package)" src] assms
    by (auto simp: str_in_header_self str_in_header_empty lower_def)
  then have "src_entry package kernel_module_out
               (Path [] (drop (length (p_tail package)) (p_tail src))) = Inr []"
    by (rule src_entry_skip)
  then show ?thesis using gen_ddk_makefile_skip by (simp add: relative_to_def)
qed

theorem C5_header_source_is_skipped_witness:
  "lower (path_suffix (PurePath ''a/b/c/helper.h'')) = ''.h'' \<and>
   gen_ddk_makefile (PurePath ''out'') (PurePath ''c/mod.ko'')
     [PurePath ''a/b/c/helper.c'', PurePath ''a/b/c/helper.h'', PurePath ''a/b/c/mod.c''] []
     [] (PurePath ''a/b'') [] None Map.empty =
   gen_ddk_makefile (PurePath ''out'') (PurePath ''c/mod.ko'')
     [PurePath ''a/b/c/helper.c'', PurePath ''a/b/c/mod.c''] []
     [] (PurePath ''a/b'') [] None Map.empty \<and>
   src_entry (PurePath ''a/b'') (PurePath ''c/mod.ko'') (PurePath ''c/helper.h'') = Inr []"
proof -
  have h: "lower (path_suffix (PurePath ''a/b/c/helper.h'')) = ''.h''"
    by code_simp
  have r: "relative_to (PurePath ''a/b/c/helper.h'') (PurePath ''a/b'') =
           Inr (PurePath ''c/helper.h'')"
    by code_simp
  show ?thesis
    using C5_header_source_is_skipped [OF h, of "PurePath ''out''" "PurePath ''c/mod.ko''"
        "[PurePath ''a/b/c/helper.c'']" "[PurePath ''a/b/c/mod.c'']" "[]" "[]" "PurePath ''a/b''"
        "[]" None Map.empty] h
    by (simp add: r)
qed

text \<open>
  C10. A declared source under the package whose suffix is empty is passed over in the same
  way: the header test is the substring test against \<^verbatim>\<open>".h"\<close>, which the empty string passes,
  so the round writes nothing and raises nothing, and the run is the run without the source.
\<close>

theorem C10_suffixless_source_is_skipped:
  assumes "is_relative_to src package" and "path_suffix src = []"
  shows "gen_ddk_makefile output_makefiles kernel_module_out (srcs1 @ src # srcs2) include_dirs
           module_symvers_list package local_defines copt_file files =
         gen_ddk_makefile output_makefiles kernel_module_out (srcs1 @ srcs2) include_dirs
           module_symvers_list package local_defines copt_file files \<and>
         str_in (lower []) ''.h'' \<and>
         (\<exists>r. relative_to src package = Inr r \<and> path_suffix r = [] \<and>
              src_entry package kernel_module_out r = Inr [])"
proof -
  let ?r = "Path [] (drop (length (p_tail package)) (p_tail src))"
  have sfx: "path_suffix ?r = []"
    using suffix_relative [of "length (p_tail package)" src] assms(2) by auto
  then have skip: "src_entry package kernel_module_out ?r = Inr []"
    by (simp add: src_entry_skip str_in_header_empty lower_def)
  have "relative_to src package = Inr ?r"
    using assms(1) by (simp add: relative_to_def)
  then show ?thesis
    using gen_ddk_makefile_skip [of src package kernel_module_out] skip sfx
    by (simp add: str_in_header_empty lower_def)
qed

theorem C10_suffixless_source_is_skipped_witness:
  "is_relative_to (PurePath ''a/b/c/README'') (PurePath ''a/b'') \<and>
   path_suffix (PurePath ''a/b/c/README'') = [] \<and>
   gen_ddk_makefile (PurePath ''out'') (PurePath ''c/mod.ko'')
     [PurePath ''a/b/c/helper.c'', PurePath ''a/b/c/README'', PurePath ''a/b/c/mod.c''] []
     [] (PurePath ''a/b'') [] None Map.empty =
   gen_ddk_makefile (PurePath ''out'') (PurePath ''c/mod.ko'')
     [PurePath ''a/b/c/helper.c'', PurePath ''a/b/c/mod.c''] []
     [] (PurePath ''a/b'') [] None Map.empty \<and>
   src_entry (PurePath ''a/b'') (PurePath ''c/mod.ko'') (PurePath ''c/README'') = Inr []"
proof -
  have h1: "is_relative_to (PurePath ''a/b/c/README'') (PurePath ''a/b'')"
    by code_simp
  have h2: "path_suffix (PurePath ''a/b/c/README'') = []"
    by code_simp
  have r: "relative_to (PurePath ''a/b/c/README'') (PurePath ''a/b'') =
           Inr (PurePath ''c/README'')"
    by code_simp
  show ?thesis
    using C10_suffixless_source_is_skipped [OF h1 h2, of "PurePath ''out''"
        "PurePath ''c/mod.ko''" "[PurePath ''a/b/c/helper.c'']" "[PurePath ''a/b/c/mod.c'']"
        "[]" "[]" "[]" None Map.empty] h1 h2
    by (auto simp: r)
qed

section \<open>Dedenting the templates\<close>

lemma dedent_one_line:
  assumes "CHR 0x0A \<notin> set l" "l \<noteq> []" "\<not> is_ws (hd l)"
    and "list_all is_ws pad" "pad \<noteq> []" "list_all is_ws t"
  shows "dedent (pad @ l @ nl @ t) = l @ nl"
proof -
  have "\<not> list_all is_ws l"
    using assms(2,3) by (cases l) simp_all
  then have "dedent (concat (map (\<lambda>l. pad @ l @ nl) [l]) @ t) = concat (map (\<lambda>l. l @ nl) [l])"
    using assms by (intro dedent_block) simp_all
  then show ?thesis by simp
qed

lemma dedent_two_lines:
  assumes "CHR 0x0A \<notin> set l1" "CHR 0x0A \<notin> set l2" "l1 \<noteq> []" "\<not> is_ws (hd l1)"
    and "\<not> list_all is_ws l2"
    and "list_all is_ws pad" "pad \<noteq> []" "list_all is_ws t"
  shows "dedent (pad @ l1 @ nl @ pad @ l2 @ nl @ t) = l1 @ nl @ l2 @ nl"
proof -
  have "\<not> list_all is_ws l1"
    using assms(3,4) by (cases l1) simp_all
  then have "dedent (concat (map (\<lambda>l. pad @ l @ nl) [l1, l2]) @ t) =
             concat (map (\<lambda>l. l @ nl) [l1, l2])"
    using assms by (intro dedent_block) simp_all
  then show ?thesis by simp
qed

lemma ws_pad8: "list_all is_ws ''        ''"
  by (simp add: is_ws_def)

lemma ws_pad12: "list_all is_ws ''            ''"
  by (simp add: is_ws_def)

lemma ws_pad16: "list_all is_ws ''                ''"
  by (simp add: is_ws_def)


section \<open>The Makefile\<close>

lemma join_dotdot_no_nl: "CHR 0x0A \<notin> set (join_with ''/'' (replicate n ''..''))"
proof (cases n)
  case 0
  then show ?thesis by simp
next
  case (Suc m)
  have "CHR 0x0A \<notin> set (concat (replicate m ''/..''))"
    by (induction m) simp_all
  then show ?thesis unfolding Suc join_dotdot by simp
qed

lemma symvers_entry_lines:
  assumes "CHR 0x0A \<notin> set (str module_symvers)" and "CHR 0x0A \<notin> set rel_root"
  shows "symvers_entry rel_root module_symvers =
         ''# Include symbol: '' @ str module_symvers @ nl @
         ''EXTRA_SYMBOLS += $(OUT_DIR)/$(M)/'' @ rel_root @ ''/'' @ str module_symvers @ nl"
proof -
  have "dedent (''            '' @ (''# Include symbol: '' @ str module_symvers) @ nl @
                ''            '' @
                (''EXTRA_SYMBOLS += $(OUT_DIR)/$(M)/'' @ rel_root @ ''/'' @ str module_symvers) @
                nl @ ''            '') =
        (''# Include symbol: '' @ str module_symvers) @ nl @
        (''EXTRA_SYMBOLS += $(OUT_DIR)/$(M)/'' @ rel_root @ ''/'' @ str module_symvers) @ nl"
    using assms by (intro dedent_two_lines ws_pad12) (simp_all add: is_ws_def)
  then show ?thesis by (simp add: symvers_entry_def)
qed

lemma kbuild_not_makefile:
  "joinpath p (PurePath ''Kbuild'') \<noteq> joinpath q (PurePath ''Makefile'')"
  by (simp add: PurePath_Makefile PurePath_Kbuild joinpath_def)

lemma gen_ddk_makefile_keeps_makefile:
  assumes "gen_makefile package module_symvers_list
             (joinpath output_makefiles (PurePath ''Makefile'')) files = Inr files1"
  shows "snd (gen_ddk_makefile output_makefiles kernel_module_out kernel_module_srcs
                include_dirs module_symvers_list package local_defines copt_file files)
           (joinpath output_makefiles (PurePath ''Makefile'')) =
         files1 (joinpath output_makefiles (PurePath ''Makefile''))"
  unfolding gen_ddk_makefile_def assms rel_srcs_of_eq
  by (simp add: Let_def kbuild_not_makefile [symmetric] split: prod.splits option.splits)

text \<open>
  C7. For a package with at least one part and dependency paths without line breaks, the
  Makefile is, for each dependency in order, a comment line and the line appending
  \<^verbatim>\<open>$(OUT_DIR)/$(M)/<relative root>/<dependency>\<close> to \<^verbatim>\<open>EXTRA_SYMBOLS\<close>, followed by the
  fixed rule for the three targets, also when there is no dependency. This is what
  \<^verbatim>\<open>_gen_makefile\<close> writes, and what the Makefile at the output root holds after any run of the
  generator, failed or not.
\<close>

theorem C7_makefile_content:
  assumes "parts package \<noteq> []"
    and "\<forall>s\<in>set module_symvers_list. CHR 0x0A \<notin> set (str s)"
  shows "gen_makefile package module_symvers_list output_makefile files =
         Inr (files(output_makefile \<mapsto>
           concat (map (\<lambda>s. ''# Include symbol: '' @ str s @ nl @
                             ''EXTRA_SYMBOLS += $(OUT_DIR)/$(M)/'' @
                             join_with ''/'' (replicate (length (parts package)) ''..'') @
                             ''/'' @ str s @ nl)
                     module_symvers_list) @
           ''modules modules_install clean:'' @ nl @ tab @
           ''$(MAKE) -C $(KERNEL_SRC) M=$(M) $(KBUILD_OPTIONS) KBUILD_EXTRA_SYMBOLS='' @
           dquote @ ''$(EXTRA_SYMBOLS)'' @ dquote @ '' $(@)'' @ nl)) \<and>
         snd (gen_ddk_makefile output_makefiles kernel_module_out kernel_module_srcs
                include_dirs module_symvers_list package local_defines copt_file files)
           (joinpath output_makefiles (PurePath ''Makefile'')) =
         Some (concat (map (\<lambda>s. ''# Include symbol: '' @ str s @ nl @
                             ''EXTRA_SYMBOLS += $(OUT_DIR)/$(M)/'' @
                             join_with ''/'' (replicate (length (parts package)) ''..'') @
                             ''/'' @ str s @ nl)
                     module_symvers_list) @
           ''modules modules_install clean:'' @ nl @ tab @
           ''$(MAKE) -C $(KERNEL_SRC) M=$(M) $(KBUILD_OPTIONS) KBUILD_EXTRA_SYMBOLS='' @
           dquote @ ''$(EXTRA_SYMBOLS)'' @ dquote @ '' $(@)'' @ nl)"
proof -
  let ?root = "join_with ''/'' (replicate (length (parts package)) ''..'')"
  let ?entry = "\<lambda>s. ''# Include symbol: '' @ str s @ nl @
                    ''EXTRA_SYMBOLS += $(OUT_DIR)/$(M)/'' @ ?root @ ''/'' @ str s @ nl"
  have entries: "map (symvers_entry ?root) module_symvers_list = map ?entry module_symvers_list"
    using assms(2) by (intro map_cong refl symvers_entry_lines join_dotdot_no_nl) simp
  have gm: "gen_makefile package module_symvers_list mk files =
            Inr (files(mk \<mapsto> concat (map ?entry module_symvers_list) @ makefile_stanza))"
    for mk
    unfolding gen_makefile_parts [OF assms(1)] entries ..
  show ?thesis
    using gm [of output_makefile]
      gen_ddk_makefile_keeps_makefile [OF gm [of "joinpath output_makefiles (PurePath ''Makefile'')"]]
    by (simp add: makefile_stanza_eq)
qed

theorem C7_makefile_content_witness:
  "parts (PurePath ''a/b'') \<noteq> [] \<and>
   CHR 0x0A \<notin> set (str (PurePath ''d/Module.symvers'')) \<and>
   gen_makefile (PurePath ''a/b'') [PurePath ''d/Module.symvers''] (PurePath ''out/Makefile'')
     Map.empty =
   Inr [PurePath ''out/Makefile'' \<mapsto>
     ''# Include symbol: d/Module.symvers'' @ nl @
     ''EXTRA_SYMBOLS += $(OUT_DIR)/$(M)/../../d/Module.symvers'' @ nl @
     ''modules modules_install clean:'' @ nl @ tab @
     ''$(MAKE) -C $(KERNEL_SRC) M=$(M) $(KBUILD_OPTIONS) KBUILD_EXTRA_SYMBOLS='' @
     dquote @ ''$(EXTRA_SYMBOLS)'' @ dquote @ '' $(@)'' @ nl] \<and>
   gen_makefile (PurePath ''a/b'') [] (PurePath ''out/Makefile'') Map.empty =
   Inr [PurePath ''out/Makefile'' \<mapsto>
     ''modules modules_install clean:'' @ nl @ tab @
     ''$(MAKE) -C $(KERNEL_SRC) M=$(M) $(KBUILD_OPTIONS) KBUILD_EXTRA_SYMBOLS='' @
     dquote @ ''$(EXTRA_SYMBOLS)'' @ dquote @ '' $(@)'' @ nl]"
proof -
  have h1: "parts (PurePath ''a/b'') \<noteq> []"
    by code_simp
  have h2: "\<forall>s\<in>set [PurePath ''d/Module.symvers'']. CHR 0x0A \<notin> set (str s)"
    by code_simp
  have h3: "\<forall>s\<in>set ([] :: path list). CHR 0x0A \<notin> set (str s)"
    by simp
  have s: "str (PurePath ''d/Module.symvers'') = ''d/Module.symvers''"
    by code_simp
  have n: "join_with ''/'' (replicate (length (parts (PurePath ''a/b''))) ''..'') = ''../..''"
    by code_simp
  show ?thesis
    using C7_makefile_content [OF h1 h2, of "PurePath ''out/Makefile''" Map.empty]
      C7_makefile_content [OF h1 h3, of "PurePath ''out/Makefile''" Map.empty] h1 h2
    by (simp add: s n)
qed

section \<open>One round of the source loop\<close>





lemma in_set_join_with:
  "c \<noteq> CHR ''/'' \<Longrightarrow> c \<in> set (join_with ''/'' ns) \<longleftrightarrow> (\<exists>n\<in>set ns. c \<in> set n)"
  by (induction "''/''" ns rule: join_with.induct) auto

lemma str_no_nl:
  "CHR 0x0A \<notin> set (str p) \<longleftrightarrow>
   CHR 0x0A \<notin> set (p_root p) \<and> (\<forall>n\<in>set (p_tail p). CHR 0x0A \<notin> set n)"
  by (auto simp: str_def in_set_join_with)







lemma write_srcs_fails:
  "r \<in> set rs \<Longrightarrow> src_entry package kernel_module_out r = Inl e \<Longrightarrow>
   fst (write_srcs package kernel_module_out rs out_file) \<noteq> None"
proof (induction rs arbitrary: out_file)
  case Nil
  then show ?case by simp
next
  case (Cons x rs)
  show ?case
  proof (cases "src_entry package kernel_module_out x")
    case (Inl e')
    then show ?thesis by simp
  next
    case (Inr written)
    then have "x \<noteq> r" using Cons.prems(2) by auto
    then have "r \<in> set rs" using Cons.prems(1) by simp
    then show ?thesis using Cons.IH Cons.prems(2) Inr by simp
  qed
qed

lemma write_kbuild_fails:
  assumes "r \<in> set rs" and "src_entry package kernel_module_out r = Inl e"
  shows "fst (write_kbuild package kernel_module_out rs include_dirs local_defines copt_file)
         \<noteq> None"
proof (cases "with_suffix kernel_module_out ''.o''")
  case (Inl e')
  then show ?thesis by (simp add: write_kbuild_def)
next
  case (Inr mod_o)
  obtain err body where w: "write_srcs package kernel_module_out rs
      (dedent (''            # Build '' @ str (joinpath package kernel_module_out) @ nl @
               ''            obj-m += '' @ name mod_o @ nl @ ''            '') @ nl) = (err, body)"
    by (cases "write_srcs package kernel_module_out rs
      (dedent (''            # Build '' @ str (joinpath package kernel_module_out) @ nl @
               ''            obj-m += '' @ name mod_o @ nl @ ''            '') @ nl)") auto
  have "err \<noteq> None"
    using write_srcs_fails [OF assms, of "dedent (''            # Build '' @
        str (joinpath package kernel_module_out) @ nl @
        ''            obj-m += '' @ name mod_o @ nl @ ''            '') @ nl"] w by simp
  then obtain e' where "err = Some e'" by auto
  then show ?thesis using Inr w by (simp add: write_kbuild_def)
qed

lemma gen_ddk_makefile_fails:
  assumes "s \<in> set kernel_module_srcs" and "relative_to s package = Inr r"
    and "src_entry package kernel_module_out r = Inl e"
  shows "fst (gen_ddk_makefile output_makefiles kernel_module_out kernel_module_srcs
                include_dirs module_symvers_list package local_defines copt_file files)
         \<noteq> None"
proof -
  let ?rs = "map (\<lambda>s. Path [] (drop (length (p_tail package)) (p_tail s)))
               (filter (\<lambda>s. is_relative_to s package) kernel_module_srcs)"
  have "r \<in> set ?rs"
    using assms(1,2) by (auto simp: relative_to_def split: if_splits)
  then have "fst (write_kbuild package kernel_module_out ?rs include_dirs local_defines
                    copt_file) \<noteq> None"
    using assms(3) by (rule write_kbuild_fails)
  then obtain e' body where
    "write_kbuild package kernel_module_out ?rs include_dirs local_defines copt_file =
       (Some e', body)"
    by (cases "write_kbuild package kernel_module_out ?rs include_dirs local_defines copt_file")
       auto
  then show ?thesis
    unfolding gen_ddk_makefile_def rel_srcs_of_eq
    by (simp add: Let_def split: sum.splits)
qed





text \<open>A source whose path is the module's directory itself passes the test of being under
  it, and then \<^verbatim>\<open>relative_to\<close> raises ValueError.\<close>

lemma src_entry_source_is_module_dir:
  "src_entry (PurePath ''a/b'') (PurePath ''c.c/mod.ko'') (PurePath ''c.c'') = Inl ValueError"
  by code_simp

subsection \<open>Unknown suffixes\<close>

lemma path_suffix_length: "path_suffix p \<noteq> [] \<Longrightarrow> 2 \<le> length (path_suffix p)"
  by (auto simp: path_suffix_def suffix_of_name_def split: option.splits if_splits)

lemma str_in_header_long:
  assumes "2 \<le> length x"
  shows "str_in x ''.h'' \<longleftrightarrow> x = ''.h''"
proof
  assume "str_in x ''.h''"
  then obtain ps ss where eq: "''.h'' = ps @ x @ ss"
    by (auto simp: str_in_def sublist_def)
  have "length (ps @ x @ ss) = length ''.h''"
    by (simp only: eq [symmetric])
  then have len: "length ps + length x + length ss = 2"
    by simp
  have "length ps = 0"
    using len assms by linarith
  moreover have "length ss = 0"
    using len assms by linarith
  ultimately have "ps = [] \<and> ss = []"
    by (simp only: length_0_conv)
  then show "x = ''.h''" using eq by simp
next
  assume "x = ''.h''"
  then show "str_in x ''.h''" by (simp add: str_in_def)
qed

lemma src_entry_invalid_suffix:
  assumes "path_suffix r \<noteq> []" and "lower (path_suffix r) \<noteq> ''.h''"
    and "lower (path_suffix r) \<notin> set SOURCE_SUFFIXES"
  shows "src_entry package kernel_module_out r = Inl (Die (''Invalid source '' @ str r))"
proof -
  have "2 \<le> length (lower (path_suffix r))"
    using path_suffix_length [OF assms(1)] by (simp add: lower_def)
  then have "\<not> str_in (lower (path_suffix r)) ''.h''"
    using assms(2) by (simp add: str_in_header_long)
  then show ?thesis using assms(3) by (simp add: src_entry_def)
qed

lemma invalid_suffix_run_fails:
  assumes "s \<in> set kernel_module_srcs" and "relative_to s package = Inr r"
    and "path_suffix r \<noteq> []" and "lower (path_suffix r) \<noteq> ''.h''"
    and "lower (path_suffix r) \<notin> set SOURCE_SUFFIXES"
  shows "fst (gen_ddk_makefile output_makefiles kernel_module_out kernel_module_srcs
                include_dirs module_symvers_list package local_defines copt_file files)
         \<noteq> None"
  using gen_ddk_makefile_fails [OF assms(1,2) src_entry_invalid_suffix [OF assms(3,4,5)]] .

text \<open>
  C3. The claim: every source under the package whose lower-cased suffix is neither the
  header extension nor one of \<^verbatim>\<open>.c\<close>, \<^verbatim>\<open>.rs\<close>, \<^verbatim>\<open>.s\<close> ends the run. It does when the suffix is
  not empty (\<open>src_entry_invalid_suffix\<close>, \<open>invalid_suffix_run_fails\<close>). A source without
  suffix, such as \<^verbatim>\<open>a/b/c/README\<close> under the package \<^verbatim>\<open>a/b\<close>, is neither a header nor
  compilable, and the run with it as only source ends with exit status 0: the header test
  \<^verbatim>\<open>in (".h")\<close> has a string, not a tuple, on its right.
\<close>

theorem C3_suffixless_source_not_rejected:
  "is_relative_to (PurePath ''a/b/c/README'') (PurePath ''a/b'') \<and>
   lower (path_suffix (PurePath ''a/b/c/README'')) \<noteq> ''.h'' \<and>
   lower (path_suffix (PurePath ''a/b/c/README'')) \<notin> set SOURCE_SUFFIXES \<and>
   src_entry (PurePath ''a/b'') (PurePath ''c/mod.ko'') (PurePath ''c/README'') = Inr [] \<and>
   fst (gen_ddk_makefile (PurePath ''out'') (PurePath ''c/mod.ko'') [PurePath ''a/b/c/README'']
          [] [] (PurePath ''a/b'') [] None Map.empty) = None"
  by code_simp

section \<open>Compiler flags\<close>

lemma shlex_quote_no_nl: "CHR 0x0A \<notin> set x \<Longrightarrow> CHR 0x0A \<notin> set (shlex_quote x)"
  by (auto simp: shlex_quote_def squote_def dquote_def split: if_splits)

lemma write_ccflag_line:
  assumes "CHR 0x0A \<notin> set ccflag"
  shows "write_ccflag ccflag = ''ccflags-y += '' @ shlex_quote ccflag @ nl"
proof -
  have "dedent (''        '' @ (''ccflags-y += '' @ shlex_quote ccflag) @ nl @ ''        '') =
        (''ccflags-y += '' @ shlex_quote ccflag) @ nl"
    using shlex_quote_no_nl [OF assms]
    by (intro dedent_one_line ws_pad8) (simp_all add: is_ws_def)
  then show ?thesis by (simp add: write_ccflag_def)
qed

lemma split_on_not_Nil: "split_on c s \<noteq> []"
  by (induction s) (auto split: list.splits)

lemma concat_split_on_subset: "set (concat (split_on c s)) \<subseteq> set s"
proof (induction s)
  case Nil
  show ?case by simp
next
  case (Cons x xs)
  obtain l ls where l: "split_on c xs = l # ls"
    using split_on_not_Nil [of c xs] by (cases "split_on c xs") auto
  have "set l \<union> set (concat ls) \<subseteq> set xs"
    using Cons.IH by (simp add: l)
  then show ?case
    by (cases "x = c") (auto simp: l)
qed

lemma split_on_subset: "n \<in> set (split_on c s) \<Longrightarrow> set n \<subseteq> set s"
  using concat_split_on_subset [of c s] by auto

lemma splitroot_cases:
  "splitroot s = ([], s) \<or> splitroot s = (''/'', drop 1 s) \<or> splitroot s = (''//'', drop 2 s)"
  by (simp add: splitroot_def)

lemma PurePath_no_nl:
  assumes "CHR 0x0A \<notin> set s"
  shows "CHR 0x0A \<notin> set (str (PurePath s))"
proof -
  obtain r rel where sr: "splitroot s = (r, rel)"
    by (cases "splitroot s") auto
  have "CHR 0x0A \<notin> set r \<and> set rel \<subseteq> set s"
    using splitroot_cases [of s] sr by (auto dest: in_set_dropD)
  then have "\<forall>n\<in>set (split_on (CHR ''/'') rel). CHR 0x0A \<notin> set n"
    using assms split_on_subset [of _ "CHR ''/''" rel] by blast
  then show ?thesis
    using \<open>CHR 0x0A \<notin> set r \<and> set rel \<subseteq> set s\<close>
    unfolding str_no_nl by (simp add: PurePath_def sr)
qed

lemma joinpath_no_nl:
  "CHR 0x0A \<notin> set (str a) \<Longrightarrow> CHR 0x0A \<notin> set (str b) \<Longrightarrow>
   CHR 0x0A \<notin> set (str (joinpath a b))"
  unfolding str_no_nl by (auto simp: joinpath_def)

lemma copt_value_no_nl:
  "CHR 0x0A \<notin> set (str rel_root) \<Longrightarrow> CHR 0x0A \<notin> set (expanded d) \<Longrightarrow>
   CHR 0x0A \<notin> set (copt_value rel_root d)"
  by (simp add: copt_value_def joinpath_no_nl PurePath_no_nl)

lemma copts_heading: "dedent (''        # copts'' @ nl @ ''        '') = ''# copts'' @ nl"
  by code_simp

lemma join_with_append:
  "xs \<noteq> [] \<Longrightarrow> ys \<noteq> [] \<Longrightarrow>
   join_with sep (xs @ ys) = join_with sep xs @ sep @ join_with sep ys"
  by (induction sep xs rule: join_with.induct) (auto simp: neq_Nil_conv)

lemma str_joinpath_relative:
  assumes "p_root b = []" and "p_tail a \<noteq> []" and "p_tail b \<noteq> []"
  shows "str (joinpath a b) = str a @ ''/'' @ str b"
  using assms by (simp add: str_def joinpath_def join_with_append)

lemma joinpath_absolute: "p_root b \<noteq> [] \<Longrightarrow> joinpath a b = b"
  by (simp add: joinpath_def)

subsection \<open>The options file\<close>

text \<open>
  C8, as the code has it. Without an options file nothing is written. With one, after an
  empty line and the heading \<^verbatim>\<open># copts\<close>, each record gives, in order and with repetitions, one
  line \<^verbatim>\<open>ccflags-y += <value>\<close> with the value quoted for the shell; the value of a record
  with \<open>is_path\<close> is the relative root joined with the expanded string as paths. For a
  relative expanded path that is the relative root, a slash and the normalised path; an
  absolute expanded path replaces the relative root. The strings have no line breaks.
\<close>

theorem C8_copt_expansion:
  assumes "\<forall>d\<in>set ds. CHR 0x0A \<notin> set (expanded d)" and "CHR 0x0A \<notin> set (str rel_root)"
  shows "handle_copt_file out_file None rel_root = out_file \<and>
         handle_copt_file out_file (Some ds) rel_root =
           out_file @ nl @ ''# copts'' @ nl @
           concat (map (\<lambda>d. ''ccflags-y += '' @
                            shlex_quote (if is_path d
                                         then str (joinpath rel_root (PurePath (expanded d)))
                                         else expanded d) @ nl) ds) \<and>
         (\<forall>d\<in>set ds.
            p_root (PurePath (expanded d)) = [] \<and> p_tail (PurePath (expanded d)) \<noteq> [] \<and>
            p_tail rel_root \<noteq> [] \<longrightarrow>
              str (joinpath rel_root (PurePath (expanded d))) =
              str rel_root @ ''/'' @ str (PurePath (expanded d))) \<and>
         (\<forall>d\<in>set ds.
            p_root (PurePath (expanded d)) \<noteq> [] \<longrightarrow>
              str (joinpath rel_root (PurePath (expanded d))) = str (PurePath (expanded d)))"
proof -
  have flags: "map (\<lambda>d. write_ccflag (copt_value rel_root d)) ds =
               map (\<lambda>d. ''ccflags-y += '' @
                         shlex_quote (if is_path d
                                      then str (joinpath rel_root (PurePath (expanded d)))
                                      else expanded d) @ nl) ds"
  proof (rule map_cong [OF refl])
    fix d assume "d \<in> set ds"
    then have "CHR 0x0A \<notin> set (copt_value rel_root d)"
      using assms by (simp add: copt_value_no_nl)
    then show "write_ccflag (copt_value rel_root d) =
               ''ccflags-y += '' @
               shlex_quote (if is_path d then str (joinpath rel_root (PurePath (expanded d)))
                            else expanded d) @ nl"
      by (simp add: write_ccflag_line copt_value_def)
  qed
  have some: "handle_copt_file out_file (Some ds) rel_root =
           out_file @ nl @ ''# copts'' @ nl @
           concat (map (\<lambda>d. ''ccflags-y += '' @
                            shlex_quote (if is_path d
                                         then str (joinpath rel_root (PurePath (expanded d)))
                                         else expanded d) @ nl) ds)"
    unfolding handle_copt_file_def option.case flags copts_heading by simp
  have none: "handle_copt_file out_file None rel_root = out_file"
    by (simp add: handle_copt_file_def)
  show ?thesis
    using none some by (simp add: str_joinpath_relative joinpath_absolute)
qed

theorem C8_copt_expansion_witness:
  "CHR 0x0A \<notin> set (expanded \<lparr>expanded = ''opt/x'', is_path = True\<rparr>) \<and>
   CHR 0x0A \<notin> set (str (PurePath ''../..'')) \<and>
   handle_copt_file [] (Some [\<lparr>expanded = ''opt/x'', is_path = True\<rparr>]) (PurePath ''../..'') =
     nl @ ''# copts'' @ nl @ ''ccflags-y += ../../opt/x'' @ nl"
proof -
  have h1: "\<forall>d\<in>set [\<lparr>expanded = ''opt/x'', is_path = True\<rparr>]. CHR 0x0A \<notin> set (expanded d)"
    by simp
  have h2: "CHR 0x0A \<notin> set (str (PurePath ''../..''))"
    by code_simp
  have v: "shlex_quote (str (joinpath (PurePath ''../..'') (PurePath ''opt/x''))) = ''../../opt/x''"
    by code_simp
  show ?thesis
    using C8_copt_expansion [OF h1 h2, of "[]"] h1 h2 by (simp add: v)
qed

text \<open>C8 as claimed, that every value with \<open>is_path\<close> gets the relative root as a prefix,
  fails for an absolute path.\<close>

theorem C8_absolute_path_not_prefixed:
  "handle_copt_file [] (Some [\<lparr>expanded = ''/opt/x'', is_path = True\<rparr>]) (PurePath ''../..'') =
     nl @ ''# copts'' @ nl @ ''ccflags-y += /opt/x'' @ nl \<and>
   copt_value (PurePath ''../..'') \<lparr>expanded = ''/opt/x'', is_path = True\<rparr> = ''/opt/x'' \<and>
   \<not> prefix (str (PurePath ''../..''))
       (copt_value (PurePath ''../..'') \<lparr>expanded = ''/opt/x'', is_path = True\<rparr>)"
  by code_simp

subsection \<open>Include directories\<close>

lemma kbuild_rel_root_eq:
  "kbuild_rel_root package kernel_module_out =
   Path [] (replicate (length (parts (joinpath package (parent kernel_module_out)))) ''..'')"
  by (simp add: kbuild_rel_root_def Path_of_segments_dotdot)

lemma kbuild_rel_root_no_nl: "CHR 0x0A \<notin> set (str (kbuild_rel_root package kernel_module_out))"
  unfolding kbuild_rel_root_eq str_no_nl by simp

lemma include_entry_lines:
  assumes "CHR 0x0A \<notin> set (str include_dir)" and "CHR 0x0A \<notin> set (str rel_root)"
  shows "include_entry rel_root include_dir =
         ''# Include '' @ str include_dir @ nl @
         ''ccflags-y += '' @
         shlex_quote (''-I$(srctree)/$(src)/'' @ str rel_root @ ''/'' @ str include_dir) @ nl"
proof -
  have "dedent (''                '' @ (''# Include '' @ str include_dir) @ nl @
                ''                '') =
        (''# Include '' @ str include_dir) @ nl"
    using assms(1) by (intro dedent_one_line ws_pad16) (simp_all add: is_ws_def)
  moreover have "write_ccflag (''-I$(srctree)/$(src)/'' @ str rel_root @ ''/'' @ str include_dir) =
        ''ccflags-y += '' @
        shlex_quote (''-I$(srctree)/$(src)/'' @ str rel_root @ ''/'' @ str include_dir) @ nl"
    using assms by (intro write_ccflag_line) simp
  ultimately show ?thesis by (simp add: include_entry_def)
qed

text \<open>
  C2, as the code has it. The relative root of the Kbuild file has one \<^verbatim>\<open>..\<close> for each part of
  the package joined with the directory of the module output. Each include directory
  (without line breaks) gives a comment and one line \<^verbatim>\<open>ccflags-y += <flag>\<close>, the flag being
  \<^verbatim>\<open>-I$(srctree)/$(src)/<relative root>/<directory>\<close> quoted for the shell. For the package
  \<^verbatim>\<open>a/b\<close>, the module output \<^verbatim>\<open>a/b/c/mod.ko\<close> and the include directory \<^verbatim>\<open>inc\<close>, the joined
  path has five parts and the flag holds \<^verbatim>\<open>$\<close>, so the line is
  \<^verbatim>\<open>ccflags-y += '-I$(srctree)/$(src)/../../../../../inc'\<close>.
\<close>

theorem C2_include_flag_lines:
  assumes "\<forall>d\<in>set include_dirs. CHR 0x0A \<notin> set (str d)"
  shows "kbuild_rel_root package kernel_module_out =
           Path [] (replicate (length (parts (joinpath package (parent kernel_module_out))))
                      ''..'') \<and>
         concat (map (include_entry (kbuild_rel_root package kernel_module_out)) include_dirs) =
           concat (map (\<lambda>d. ''# Include '' @ str d @ nl @
                            ''ccflags-y += '' @
                            shlex_quote (''-I$(srctree)/$(src)/'' @
                                         str (kbuild_rel_root package kernel_module_out) @
                                         ''/'' @ str d) @ nl)
                     include_dirs) \<and>
         snd (gen_ddk_makefile (PurePath ''out'') (PurePath ''a/b/c/mod.ko'') []
                [PurePath ''inc''] [] (PurePath ''a/b'') [] None Map.empty)
           (PurePath ''out/a/b/c/Kbuild'') =
         Some (''# Build a/b/a/b/c/mod.ko'' @ nl @ ''obj-m += mod.o'' @ nl @ nl @ nl @
               ''# Include inc'' @ nl @
               ''ccflags-y += '' @ squote @ ''-I$(srctree)/$(src)/../../../../../inc'' @
               squote @ nl)"
proof -
  have entries: "map (include_entry (kbuild_rel_root package kernel_module_out)) include_dirs =
        map (\<lambda>d. ''# Include '' @ str d @ nl @ ''ccflags-y += '' @
                  shlex_quote (''-I$(srctree)/$(src)/'' @
                               str (kbuild_rel_root package kernel_module_out) @
                               ''/'' @ str d) @ nl)
          include_dirs"
    using assms by (intro map_cong refl include_entry_lines kbuild_rel_root_no_nl) simp
  have scenario: "snd (gen_ddk_makefile (PurePath ''out'') (PurePath ''a/b/c/mod.ko'') []
                [PurePath ''inc''] [] (PurePath ''a/b'') [] None Map.empty)
           (PurePath ''out/a/b/c/Kbuild'') =
         Some (''# Build a/b/a/b/c/mod.ko'' @ nl @ ''obj-m += mod.o'' @ nl @ nl @ nl @
               ''# Include inc'' @ nl @
               ''ccflags-y += '' @ squote @ ''-I$(srctree)/$(src)/../../../../../inc'' @
               squote @ nl)"
    by code_simp
  show ?thesis
    unfolding entries using kbuild_rel_root_eq scenario by simp
qed

theorem C2_include_flag_lines_witness:
  "CHR 0x0A \<notin> set (str (PurePath ''inc'')) \<and>
   CHR 0x0A \<notin> set (str (PurePath ''uapi/include'')) \<and>
   kbuild_rel_root (PurePath ''a/b'') (PurePath ''c/mod.ko'') = PurePath ''../../..'' \<and>
   concat (map (include_entry (kbuild_rel_root (PurePath ''a/b'') (PurePath ''c/mod.ko'')))
             [PurePath ''inc'', PurePath ''uapi/include'']) =
     ''# Include inc'' @ nl @
     ''ccflags-y += '' @ squote @ ''-I$(srctree)/$(src)/../../../inc'' @ squote @ nl @
     ''# Include uapi/include'' @ nl @
     ''ccflags-y += '' @ squote @ ''-I$(srctree)/$(src)/../../../uapi/include'' @ squote @ nl"
proof -
  have h: "\<forall>d\<in>set [PurePath ''inc'', PurePath ''uapi/include'']. CHR 0x0A \<notin> set (str d)"
    by code_simp
  have r: "Path [] (replicate (length (parts (joinpath (PurePath ''a/b'')
             (parent (PurePath ''c/mod.ko''))))) ''..'') = PurePath ''../../..''"
    by code_simp
  have q1: "shlex_quote (''-I$(srctree)/$(src)/'' @ str (PurePath ''../../..'') @ ''/'' @
                         ''inc'') =
            squote @ ''-I$(srctree)/$(src)/../../../inc'' @ squote"
    by code_simp
  have q2: "shlex_quote (''-I$(srctree)/$(src)/'' @ str (PurePath ''../../..'') @ ''/'' @
                         ''uapi/include'') =
            squote @ ''-I$(srctree)/$(src)/../../../uapi/include'' @ squote"
    by code_simp
  have s1: "str (PurePath ''inc'') = ''inc''"
    by code_simp
  have s2: "str (PurePath ''uapi/include'') = ''uapi/include''"
    by code_simp
  have root: "kbuild_rel_root (PurePath ''a/b'') (PurePath ''c/mod.ko'') = PurePath ''../../..''"
    using C2_include_flag_lines [OF h, of "PurePath ''a/b''" "PurePath ''c/mod.ko''"]
    by (simp only: r)
  note entries = C2_include_flag_lines [OF h, of "PurePath ''a/b''" "PurePath ''c/mod.ko''",
      THEN conjunct2, THEN conjunct1]
  have "concat (map (include_entry (kbuild_rel_root (PurePath ''a/b'') (PurePath ''c/mod.ko'')))
             [PurePath ''inc'', PurePath ''uapi/include'']) =
     ''# Include inc'' @ nl @
     ''ccflags-y += '' @ squote @ ''-I$(srctree)/$(src)/../../../inc'' @ squote @ nl @
     ''# Include uapi/include'' @ nl @
     ''ccflags-y += '' @ squote @ ''-I$(srctree)/$(src)/../../../uapi/include'' @ squote @ nl"
    unfolding entries by (simp only: list.map concat.simps root q1 q2 s1 s2) simp
  then show ?thesis using h root by simp
qed

text \<open>C2 as claimed: the line \<^verbatim>\<open>ccflags-y += -I$(srctree)/$(src)/../inc\<close> is not in the Kbuild
  file of that run.\<close>

theorem C2_claimed_line_not_emitted:
  "snd (gen_ddk_makefile (PurePath ''out'') (PurePath ''a/b/c/mod.ko'') []
          [PurePath ''inc''] [] (PurePath ''a/b'') [] None Map.empty)
     (PurePath ''out/a/b/c/Kbuild'') =
   Some (''# Build a/b/a/b/c/mod.ko'' @ nl @ ''obj-m += mod.o'' @ nl @ nl @ nl @
         ''# Include inc'' @ nl @
         ''ccflags-y += '' @ squote @ ''-I$(srctree)/$(src)/../../../../../inc'' @
         squote @ nl) \<and>
   ''ccflags-y += -I$(srctree)/$(src)/../inc'' \<notin>
     set (split_on (CHR 0x0A)
            (''# Build a/b/a/b/c/mod.ko'' @ nl @ ''obj-m += mod.o'' @ nl @ nl @ nl @
             ''# Include inc'' @ nl @
             ''ccflags-y += '' @ squote @ ''-I$(srctree)/$(src)/../../../../../inc'' @
             squote @ nl))"
  by code_simp

end
